theory Spec2Isabelle
  imports Main "HOL-Library.Sublist"
begin

section \<open>Python strings\<close>

text \<open>
  A Python \<open>str\<close> is modelled as a \<open>string\<close> (a list of \<open>char\<close>), each \<open>char\<close> standing
  for the code point of the same number, so the model covers the texts whose code points
  lie below 256. On these code points the character classes below are the ones CPython uses
  for \<open>str.strip\<close>, \<open>str.split\<close>, \<open>str.isalpha\<close>, \<open>str.lower\<close> and for the classes \<open>\s\<close>,
  \<open>\d\<close> and \<open>\w\<close> of \<open>re\<close> on \<open>str\<close> patterns.
\<close>

definition is_space :: "char \<Rightarrow> bool" where
  \<comment> \<open>\<open>str.isspace\<close>, \<open>\s\<close>: TAB..CR, FS..US, SPACE, NEL, NBSP\<close>
  "is_space c = (let n = (of_char c :: nat) in
     (9 \<le> n \<and> n \<le> 13) \<or> (28 \<le> n \<and> n \<le> 32) \<or> n = 133 \<or> n = 160)"

definition is_decimal :: "char \<Rightarrow> bool" where
  \<comment> \<open>\<open>\d\<close>: the decimal digits\<close>
  "is_decimal c = (let n = (of_char c :: nat) in 48 \<le> n \<and> n \<le> 57)"

definition is_ascii_letter :: "char \<Rightarrow> bool" where
  \<comment> \<open>the class \<open>[A-Za-z]\<close>\<close>
  "is_ascii_letter c = (let n = (of_char c :: nat) in
     (65 \<le> n \<and> n \<le> 90) \<or> (97 \<le> n \<and> n \<le> 122))"

definition is_alpha :: "char \<Rightarrow> bool" where
  \<comment> \<open>\<open>str.isalpha\<close> on one character: the letters below 256\<close>
  "is_alpha c = (let n = (of_char c :: nat) in
     (65 \<le> n \<and> n \<le> 90) \<or> (97 \<le> n \<and> n \<le> 122) \<or> n = 170 \<or> n = 181 \<or> n = 186 \<or>
     (192 \<le> n \<and> n \<le> 214) \<or> (216 \<le> n \<and> n \<le> 246) \<or> 248 \<le> n)"

definition is_word :: "char \<Rightarrow> bool" where
  \<comment> \<open>\<open>\w\<close>: alphanumeric (letters, decimal digits, superscript digits, vulgar fractions)
      or the underscore\<close>
  "is_word c = (let n = (of_char c :: nat) in
     is_alpha c \<or> is_decimal c \<or> n = 95 \<or> n = 178 \<or> n = 179 \<or> n = 185 \<or>
     (188 \<le> n \<and> n \<le> 190))"

definition lower_char :: "char \<Rightarrow> char" where
  \<comment> \<open>\<open>str.lower\<close> on one character: A..Z and the capital letters 192..222 (but 215, the
      multiplication sign) move up by 32\<close>
  "lower_char c = (let n = (of_char c :: nat) in
     if (65 \<le> n \<and> n \<le> 90) \<or> (192 \<le> n \<and> n \<le> 222 \<and> n \<noteq> 215) then char_of (n + 32) else c)"

definition py_lower :: "string \<Rightarrow> string" where
  "py_lower s = map lower_char s"

definition py_isalpha :: "string \<Rightarrow> bool" where
  \<comment> \<open>\<open>str.isalpha\<close>: at least one character, all of them letters\<close>
  "py_isalpha s = (s \<noteq> [] \<and> list_all is_alpha s)"

definition py_strip :: "string \<Rightarrow> string" where
  \<comment> \<open>\<open>str.strip()\<close>: leading and trailing whitespace removed\<close>
  "py_strip s = rev (dropWhile is_space (rev (dropWhile is_space s)))"

fun split_where :: "(char \<Rightarrow> bool) \<Rightarrow> string \<Rightarrow> string list" where
  \<comment> \<open>the pieces between the characters that satisfy \<open>P\<close>, empty pieces kept\<close>
  "split_where P [] = [[]]"
| "split_where P (c # cs) =
     (if P c then [] # split_where P cs
      else (case split_where P cs of
              [] \<Rightarrow> [[c]]
            | w # ws \<Rightarrow> (c # w) # ws))"

definition py_split_on :: "char \<Rightarrow> string \<Rightarrow> string list" where
  \<comment> \<open>\<open>s.split(sep)\<close> for a separator of one character\<close>
  "py_split_on d s = split_where (\<lambda>c. c = d) s"

definition py_split :: "string \<Rightarrow> string list" where
  \<comment> \<open>\<open>s.split()\<close>: the maximal runs of non-whitespace\<close>
  "py_split s = filter (\<lambda>w. w \<noteq> []) (split_where is_space s)"

fun py_join :: "string \<Rightarrow> string list \<Rightarrow> string" where
  \<comment> \<open>\<open>sep.join(ws)\<close>\<close>
  "py_join sep [] = []"
| "py_join sep [w] = w"
| "py_join sep (w # v # ws) = w @ sep @ py_join sep (v # ws)"

fun py_replace :: "string \<Rightarrow> string \<Rightarrow> string \<Rightarrow> string" where
  \<comment> \<open>\<open>s.replace(old, new)\<close>: one scan from the left over non-overlapping occurrences;
      the text put in place of an occurrence is not scanned again\<close>
  "py_replace [] old new = (if old = [] then new else [])"
| "py_replace (c # cs) old new =
     (if old = [] then new @ c # py_replace cs old new
      else if prefix old (c # cs) then new @ py_replace (drop (length old - 1) cs) old new
      else c # py_replace cs old new)"

definition newline :: char where
  "newline = CHR 0x0A"

section \<open>Tables of the module\<close>

definition MODEL_OPTIONS :: "(string \<times> string) list" where
  "MODEL_OPTIONS =
     [(''flash'', ''models/gemini-2.0-flash-exp''),
      (''pro'', ''models/gemini-2.5-pro-exp-03-25'')]"

definition DEFAULT_MODEL :: string where
  "DEFAULT_MODEL = ''flash''"

definition AUDIO_EXTENSIONS_TO_MIME :: "(string \<times> string) list" where
  "AUDIO_EXTENSIONS_TO_MIME =
     [(''.mp3'', ''audio/mpeg''),
      (''.wav'', ''audio/wav''),
      (''.ogg'', ''audio/ogg''),
      (''.m4a'', ''audio/mp4''),
      (''.mp4'', ''audio/mp4''),
      (''.aac'', ''audio/aac''),
      (''.webm'', ''audio/webm'')]"

section \<open>Paths\<close>

text \<open>
  \<open>pathlib.Path\<close> on a POSIX system, as CPython implements it up to version 3.13: the name
  is the last component that is neither empty nor a single dot; the suffix starts at the
  last dot of the name when that dot is neither its first nor its last character.
\<close>

definition path_name :: "string \<Rightarrow> string" where
  "path_name p =
     (case filter (\<lambda>x. x \<noteq> [] \<and> x \<noteq> ''.'') (py_split_on (CHR ''/'') p) of
        [] \<Rightarrow> []
      | x # xs \<Rightarrow> last (x # xs))"

definition rfind_dot :: "string \<Rightarrow> nat option" where
  \<comment> \<open>\<open>name.rfind('.')\<close>, \<open>None\<close> for -1\<close>
  "rfind_dot s =
     (if CHR ''.'' \<in> set s
      then Some (length s - 1 - length (takeWhile (\<lambda>c. c \<noteq> CHR ''.'') (rev s)))
      else None)"

definition path_suffix :: "string \<Rightarrow> string" where
  "path_suffix p =
     (let name = path_name p in
      case rfind_dot name of
        None \<Rightarrow> []
      | Some i \<Rightarrow> if 0 < i \<and> i + 1 < length name then drop i name else [])"

definition path_stem :: "string \<Rightarrow> string" where
  "path_stem p =
     (let name = path_name p in
      case rfind_dot name of
        None \<Rightarrow> name
      | Some i \<Rightarrow> if 0 < i \<and> i + 1 < length name then take i name else name)"

section \<open>Extension checks\<close>

definition get_gemini_mime_type :: "string \<Rightarrow> string" where
  "get_gemini_mime_type file_path =
     (let file_ext = py_lower (path_suffix file_path) in
      case map_of AUDIO_EXTENSIONS_TO_MIME file_ext of
        Some mime \<Rightarrow> mime
      | None \<Rightarrow> ''audio/mp4'')"

definition is_audio_file :: "string \<Rightarrow> bool" where
  "is_audio_file file_path =
     (let file_ext = py_lower (path_suffix file_path) in
      map_of AUDIO_EXTENSIONS_TO_MIME file_ext \<noteq> None)"

section \<open>Timestamps\<close>

text \<open>
  The value of \<open>datetime.now()\<close> is an input of the model. Its fields are taken within the
  ranges of Python's \<open>datetime\<close> (year 1..9999, month 1..12, day 1..31, hour 0..23, minute and
  second 0..59), where \<open>strftime\<close> writes each field with a fixed number of digits.
\<close>

record datetime =
  year :: nat
  month :: nat
  day :: nat
  hour :: nat
  minute :: nat
  second :: nat

definition digit_char :: "nat \<Rightarrow> char" where
  "digit_char d = char_of (48 + d)"

definition zero_pad :: "nat \<Rightarrow> nat \<Rightarrow> string" where
  \<comment> \<open>the last \<open>k\<close> decimal digits of \<open>n\<close>, leading zeros included\<close>
  "zero_pad k n = map (\<lambda>i. digit_char (n div 10 ^ i mod 10)) (rev [0..<k])"

definition strftime_compact :: "datetime \<Rightarrow> string" where
  \<comment> \<open>\<open>strftime("%Y%m%d_%H%M%S")\<close>\<close>
  "strftime_compact d =
     zero_pad 4 (year d) @ zero_pad 2 (month d) @ zero_pad 2 (day d) @ ''_'' @
     zero_pad 2 (hour d) @ zero_pad 2 (minute d) @ zero_pad 2 (second d)"

definition strftime_header :: "datetime \<Rightarrow> string" where
  \<comment> \<open>\<open>strftime('%Y-%m-%d %H:%M:%S')\<close>\<close>
  "strftime_header d =
     zero_pad 4 (year d) @ ''-'' @ zero_pad 2 (month d) @ ''-'' @ zero_pad 2 (day d) @ '' '' @
     zero_pad 2 (hour d) @ '':'' @ zero_pad 2 (minute d) @ '':'' @ zero_pad 2 (second d)"

section \<open>The file name of a transcript\<close>

definition match_speaker_label :: "string \<Rightarrow> nat option" where
  \<comment> \<open>the length of the match of \<open>Speaker \d+:\s*\<close> at the head of the text, if there is
      one: the digits and the whitespace are taken as far as they go\<close>
  "match_speaker_label s =
     (if prefix ''Speaker '' s
      then (let digits = takeWhile is_decimal (drop 8 s);
                r = dropWhile is_decimal (drop 8 s) in
            if digits \<noteq> [] \<and> prefix '':'' r
            then Some (8 + length digits + 1 + length (takeWhile is_space (drop 1 r)))
            else None)
      else None)"

fun sub_speaker_labels :: "string \<Rightarrow> string" where
  \<comment> \<open>\<open>re.sub(r'Speaker \d+:\s*', '', s)\<close>\<close>
  "sub_speaker_labels [] = []"
| "sub_speaker_labels (c # cs) =
     (case match_speaker_label (c # cs) of
        Some n \<Rightarrow> sub_speaker_labels (drop (n - 1) cs)
      | None \<Rightarrow> c # sub_speaker_labels cs)"

definition find_words :: "string \<Rightarrow> string list" where
  \<comment> \<open>\<open>re.findall(r'\b[A-Za-z]{3,}\b', s)\<close>: a match starts and ends at a word boundary, so
      it is a maximal run of word characters, and one made of at least three ASCII letters\<close>
  "find_words s =
     filter (\<lambda>w. 3 \<le> length w \<and> list_all is_ascii_letter w)
       (split_where (\<lambda>c. \<not> is_word c) s)"

definition common_words :: "string list" where
  "common_words =
     [''the'', ''and'', ''are'', ''you'', ''for'', ''not'', ''with'', ''have'', ''this'',
      ''that'', ''was'', ''but'', ''they'', ''been'', ''have'', ''their'', ''said'', ''each'',
      ''which'', ''she'', ''how'', ''will'', ''can'', ''what'', ''when'', ''where'', ''who'',
      ''why'', ''would'', ''could'', ''should'', ''about'', ''from'', ''into'', ''over'',
      ''after'', ''before'', ''during'', ''through'', ''above'', ''below'', ''between'',
      ''among'']"

definition is_separator :: "char \<Rightarrow> bool" where
  \<comment> \<open>the class \<open>[-\s]\<close>\<close>
  "is_separator c = (c = CHR ''-'' \<or> is_space c)"

definition remove_unsafe :: "string \<Rightarrow> string" where
  \<comment> \<open>\<open>re.sub(r'[^\w\s-]', '', s)\<close>\<close>
  "remove_unsafe s = filter (\<lambda>c. is_word c \<or> is_space c \<or> c = CHR ''-'') s"

function collapse_separators :: "string \<Rightarrow> string" where
  \<comment> \<open>\<open>re.sub(r'[-\s]+', '_', s)\<close>\<close>
  "collapse_separators [] = []"
| "collapse_separators (c # cs) =
     (if is_separator c then CHR ''_'' # collapse_separators (dropWhile is_separator cs)
      else c # collapse_separators cs)"
  by pat_completeness auto
termination
  by (relation "measure length") (auto simp: less_Suc_eq_le length_dropWhile_le)

definition describe :: "string \<Rightarrow> string" where
  \<comment> \<open>the description of \<open>generate_descriptive_filename\<close>, up to its last fallback\<close>
  "describe transcript_text =
     (let text = py_strip transcript_text;
          preview = py_replace (py_replace (take 100 text) [newline] '' '') [CHR 0x0D] '' '';
          preview = sub_speaker_labels preview;
          words = find_words preview;
          meaningful_words =
            map py_lower (filter (\<lambda>word. py_lower word \<notin> set common_words) words);
          description =
            (if meaningful_words \<noteq> [] then py_join ''_'' (take 4 meaningful_words)
             else py_join ''_'' (map py_lower (filter py_isalpha (take 3 (py_split text)))));
          description = remove_unsafe description;
          description = collapse_separators description;
          description = (if 50 < length description then take 50 description else description)
      in if description = [] then ''transcript'' else description)"

definition generate_descriptive_filename :: "string \<Rightarrow> string \<Rightarrow> datetime \<Rightarrow> string" where
  \<comment> \<open>the third argument is the value of \<open>datetime.now()\<close>\<close>
  "generate_descriptive_filename transcript_text original_filename now =
     describe transcript_text @ ''_'' @ path_stem original_filename @ ''_'' @
     strftime_compact now @ ''.md''"

section \<open>Cleaning the transcript\<close>

text \<open>
  The last part of \<open>transcribe_audio\<close>: the three header phrases are deleted, the text is
  trimmed, the speakers are counted and the labels of a single speaker are deleted.
\<close>

definition header_phrase :: string where
  "header_phrase = ''# Transcription\<newline>\<newline>''"

definition okay_phrase :: string where
  "okay_phrase = ''Okay, here is the transcription:\<newline>''"

definition heres_phrase :: string where
  "heres_phrase = ''Here's the transcription:\<newline>''"

definition clean_up_transcript :: "string \<Rightarrow> string" where
  "clean_up_transcript transcript =
     py_strip
       (py_replace (py_replace (py_replace transcript header_phrase []) okay_phrase [])
          heres_phrase [])"

definition speaker_label :: "nat \<Rightarrow> string" where
  \<comment> \<open>\<open>f"Speaker {i}:"\<close> for \<open>i\<close> in 1..9\<close>
  "speaker_label i = ''Speaker '' @ [digit_char i] @ '':''"

definition bold_speaker_label :: "nat \<Rightarrow> string" where
  \<comment> \<open>\<open>f"**Speaker {i}:**"\<close>\<close>
  "bold_speaker_label i = ''**'' @ speaker_label i @ ''**''"

definition line_speakers :: "string \<Rightarrow> nat list" where
  "line_speakers line =
     (if prefix ''Speaker '' (py_strip line) \<or> prefix ''**Speaker '' (py_strip line)
      then filter (\<lambda>i. sublist (speaker_label i) line \<or> sublist (bold_speaker_label i) line)
             [1..<10]
      else [])"

definition speaker_labels :: "string \<Rightarrow> nat list" where
  \<comment> \<open>the set \<open>speaker_labels\<close>, as a list without repetition\<close>
  "speaker_labels transcript =
     remdups (concat (map line_speakers (py_split_on newline transcript)))"

definition remove_single_speaker_labels :: "string \<Rightarrow> string" where
  "remove_single_speaker_labels transcript =
     (if length (speaker_labels transcript) = 1
      then py_strip (py_replace (py_replace transcript ''**Speaker 1:**'' []) ''Speaker 1:'' [])
      else transcript)"

definition normalize_transcript :: "string \<Rightarrow> string" where
  "normalize_transcript transcript = remove_single_speaker_labels (clean_up_transcript transcript)"

section \<open>The run and its effects\<close>

text \<open>
  What the program reads from outside is a \<open>world\<close>; what it does to the outside is a list
  of events, in the order of the calls. An exception is a class and its message (\<open>str(e)\<close>);
  the exceptions that the file system and the remote service raise come from the world.
  Logging is left out: it writes to the log stream and never changes the control flow. The
  environment variable is read after \<open>load_dotenv()\<close>. The pictographs that open some console
  lines lie outside the code points of the model and are left out of the printed text.
\<close>

datatype exn_class = FileNotFoundError | ValueError | KeyError | OtherError

datatype exn = Exn exn_class string

fun exn_str :: "exn \<Rightarrow> string" where
  \<comment> \<open>\<open>str(e)\<close>; for a \<open>KeyError\<close> the key between quotes\<close>
  "exn_str (Exn KeyError k) = [CHR 0x27] @ k @ [CHR 0x27]"
| "exn_str (Exn _ m) = m"

type_synonym bytes = string

type_synonym part = "string option"
  \<comment> \<open>the \<open>text\<close> attribute of a part, \<open>None\<close> when the part has none\<close>

record candidate =
  content :: "part list option"
  safety_ratings :: "(string \<times> string) list"

record response =
  candidates :: "candidate list"
  quick_text :: "string option"
    \<comment> \<open>the value of \<open>response.text\<close>, \<open>None\<close> when the accessor raises \<open>ValueError\<close>\<close>

record request =
  req_model :: string
  req_mime_type :: string
  req_data :: bytes
    \<comment> \<open>the audio bytes; the source sends them in base64, with the fixed prompt and the
        safety settings\<close>

record world =
  path_exists :: "string \<Rightarrow> bool"
  read_bytes :: "string \<Rightarrow> exn + bytes"
  getenv_api_key :: "string option"
  generate_content :: "request \<Rightarrow> exn + response"
  clock :: "nat \<Rightarrow> datetime"
    \<comment> \<open>the successive values of \<open>datetime.now()\<close>\<close>
  mkdir :: "string \<Rightarrow> exn option"
  stat_size_mb :: "string \<Rightarrow> exn + string"
    \<comment> \<open>\<open>st_size / (1024*1024)\<close> of a file written with two decimals\<close>
  write_text :: "string \<Rightarrow> string \<Rightarrow> exn option"

datatype event =
    Exists string
  | ReadFile string
  | Generate request
  | MakeDirs string
  | Stat string
  | WriteFile string string
  | Print string

definition missing_key_message :: string where
  "missing_key_message =
     ''GOOGLE_AI_API_KEY not found in environment variables. Please set it in .env file.''"

definition get_api_key :: "world \<Rightarrow> exn + string" where
  \<comment> \<open>\<open>if not api_key\<close>: the variable is unset or empty\<close>
  "get_api_key w =
     (case getenv_api_key w of
        None \<Rightarrow> Inl (Exn ValueError missing_key_message)
      | Some api_key \<Rightarrow>
          if api_key = [] then Inl (Exn ValueError missing_key_message) else Inr api_key)"

definition select_model :: "string \<Rightarrow> exn + string" where
  \<comment> \<open>\<open>MODEL_OPTIONS.get(model_key, MODEL_OPTIONS[DEFAULT_MODEL])\<close>: the default is looked
      up first\<close>
  "select_model model_key =
     (case map_of MODEL_OPTIONS DEFAULT_MODEL of
        None \<Rightarrow> Inl (Exn KeyError DEFAULT_MODEL)
      | Some d \<Rightarrow>
          (case map_of MODEL_OPTIONS model_key of
             None \<Rightarrow> Inr d
           | Some m \<Rightarrow> Inr m))"

definition is_blocked :: "response \<Rightarrow> bool" where
  \<comment> \<open>no candidate, or a first candidate with no content or with no parts\<close>
  "is_blocked r =
     (case candidates r of
        [] \<Rightarrow> True
      | c # _ \<Rightarrow> (case content c of None \<Rightarrow> True | Some parts \<Rightarrow> parts = []))"

fun first_part_text :: "part list \<Rightarrow> string option" where
  \<comment> \<open>the first part that has a non-empty text\<close>
  "first_part_text [] = None"
| "first_part_text (None # ps) = first_part_text ps"
| "first_part_text (Some t # ps) = (if t \<noteq> [] then Some t else first_part_text ps)"

definition extract_text :: "response \<Rightarrow> exn + string" where
  "extract_text r =
     (case quick_text r of
        Some t \<Rightarrow> Inr t
      | None \<Rightarrow>
          (case candidates r of
             [] \<Rightarrow> Inl (Exn ValueError ''Transcription response was empty or blocked.'')
           | c # _ \<Rightarrow>
               (case content c of
                  None \<Rightarrow> Inl (Exn ValueError ''Transcription response was empty or blocked.'')
                | Some parts \<Rightarrow>
                    if parts = []
                    then Inl (Exn ValueError ''Transcription response was empty or blocked.'')
                    else (case first_part_text parts of
                            Some t \<Rightarrow> Inr t
                          | None \<Rightarrow> Inl (Exn ValueError
                              ''Could not extract transcription from response.'')))))"

definition blocked_message :: string where
  "blocked_message =
     ''Transcription was blocked due to content restrictions or the audio format is not supported.''"

definition transcribe_audio :: "world \<Rightarrow> string \<Rightarrow> string \<Rightarrow> event list \<times> (exn + string)" where
  "transcribe_audio w audio_path model_key =
     (if \<not> path_exists w audio_path
      then ([Exists audio_path],
            Inl (Exn FileNotFoundError (''Audio file not found: '' @ audio_path)))
      else if \<not> is_audio_file audio_path
      then ([Exists audio_path],
            Inl (Exn ValueError (''File is not a supported audio format: '' @ audio_path)))
      else
        (case select_model model_key of
           Inl e \<Rightarrow> ([Exists audio_path], Inl e)
         | Inr model_name \<Rightarrow>
        (case read_bytes w audio_path of
           Inl e \<Rightarrow> ([Exists audio_path, ReadFile audio_path], Inl e)
         | Inr audio_data \<Rightarrow>
        (let mime_type = get_gemini_mime_type audio_path in
         case get_api_key w of
           Inl e \<Rightarrow> ([Exists audio_path, ReadFile audio_path], Inl e)
         | Inr api_key \<Rightarrow>
        (let req = \<lparr>req_model = model_name, req_mime_type = mime_type, req_data = audio_data\<rparr>;
             trace = [Exists audio_path, ReadFile audio_path, Generate req] in
         case generate_content w req of
           Inl e \<Rightarrow> (trace, Inl e)
         | Inr resp \<Rightarrow>
             if is_blocked resp then (trace, Inl (Exn ValueError blocked_message))
             else (case extract_text resp of
                     Inl e \<Rightarrow> (trace, Inl e)
                   | Inr transcript \<Rightarrow> (trace, Inr (normalize_transcript transcript))))))))"

definition path_parts :: "string \<Rightarrow> string list" where
  \<comment> \<open>the components of a path: neither empty nor a single dot\<close>
  "path_parts p = filter (\<lambda>x. x \<noteq> [] \<and> x \<noteq> ''.'') (py_split_on (CHR ''/'') p)"

definition path_root :: "string \<Rightarrow> string" where
  \<comment> \<open>one leading slash, or exactly two\<close>
  "path_root p =
     (if prefix ''//'' p \<and> \<not> prefix ''///'' p then ''//''
      else if prefix ''/'' p then ''/''
      else [])"

definition path_join :: "string \<Rightarrow> string \<Rightarrow> string" where
  \<comment> \<open>\<open>str(Path(d) / f)\<close>: an absolute \<open>f\<close> replaces \<open>d\<close>; the path without root and
      components is written as a dot\<close>
  "path_join d f =
     (let root = (if prefix ''/'' f then path_root f else path_root d);
          parts = (if prefix ''/'' f then path_parts f else path_parts d @ path_parts f)
      in if root = [] \<and> parts = [] then ''.'' else root @ py_join ''/'' parts)"

definition transcript_content :: "string \<Rightarrow> string \<Rightarrow> string \<Rightarrow> string \<Rightarrow> string" where
  "transcript_content source_name stamp size_mb transcript =
     ''# Audio Transcript\<newline>\<newline>'' @
     ''**Source File:** '' @ source_name @ ''  \<newline>'' @
     ''**Transcribed:** '' @ stamp @ ''  \<newline>'' @
     ''**File Size:** '' @ size_mb @ '' MB\<newline>\<newline>'' @
     ''---\<newline>\<newline>'' @ transcript @ ''\<newline>\<newline>---\<newline>\<newline>'' @
     ''*Transcribed using Google AI Gemini*\<newline>''"

definition save_transcript ::
  "world \<Rightarrow> string \<Rightarrow> string \<Rightarrow> string \<Rightarrow> event list \<times> (exn + string)" where
  "save_transcript w transcript original_audio_path output_dir =
     (case mkdir w output_dir of
        Some e \<Rightarrow> ([MakeDirs output_dir], Inl e)
      | None \<Rightarrow>
     (let filename = generate_descriptive_filename transcript original_audio_path (clock w 0);
          output_file = path_join output_dir filename in
      case stat_size_mb w original_audio_path of
        Inl e \<Rightarrow> ([MakeDirs output_dir, Stat original_audio_path], Inl e)
      | Inr size_mb \<Rightarrow>
     (let body = transcript_content (path_name original_audio_path)
                   (strftime_header (clock w 1)) size_mb transcript;
          trace = [MakeDirs output_dir, Stat original_audio_path, WriteFile output_file body] in
      case write_text w output_file body of
        Some e \<Rightarrow> (trace, Inl e)
      | None \<Rightarrow> (trace, Inr output_file))))"

record cli_args =
  audio_file :: string
  model :: string
  output_dir :: string
    \<comment> \<open>\<open>args.output\<close>\<close>
  verbose :: bool

definition model_choices :: "string list" where
  \<comment> \<open>the \<open>choices\<close> of the \<open>--model\<close> argument\<close>
  "model_choices = [''flash'', ''pro'']"

definition banner :: "cli_args \<Rightarrow> event list" where
  "banner args =
     [Print ''Audio Transcription Tool'',
      Print (replicate 50 (CHR ''='')),
      Print (''Input file: '' @ audio_file args)]"

definition main :: "world \<Rightarrow> cli_args \<Rightarrow> event list \<times> nat" where
  \<comment> \<open>the events of the run and the exit code\<close>
  "main w args =
     (case map_of MODEL_OPTIONS (model args) of
        None \<Rightarrow>
          (banner args @ [Print (''Error: '' @ exn_str (Exn KeyError (model args)))], 1)
      | Some model_name \<Rightarrow>
     (let head = banner args @
            [Print (''Model: '' @ model_name),
             Print (''Output directory: '' @ output_dir args),
             Print [],
             Exists (audio_file args)] in
      if \<not> path_exists w (audio_file args)
      then (head @ [Print (''Error: Audio file not found: '' @ audio_file args)], 1)
      else if \<not> is_audio_file (audio_file args)
      then (head @
              [Print ''Error: File is not a supported audio format.'',
               Print (''Supported formats: '' @ py_join '', '' (map fst AUDIO_EXTENSIONS_TO_MIME))],
            1)
      else
        (let head = head @ [Print ''Transcribing audio (this may take a while)...''] in
         case transcribe_audio w (audio_file args) (model args) of
           (t1, Inl e) \<Rightarrow> (head @ t1 @ [Print (''Error: '' @ exn_str e)], 1)
         | (t1, Inr transcript) \<Rightarrow>
        (case save_transcript w transcript (audio_file args) (output_dir args) of
           (t2, Inl e) \<Rightarrow> (head @ t1 @ t2 @ [Print (''Error: '' @ exn_str e)], 1)
         | (t2, Inr output_file) \<Rightarrow>
             (head @ t1 @ t2 @
                [Print ''Transcription completed successfully!'',
                 Print (''Transcript saved to: '' @ output_file),
                 Print (''\<newline>Preview (first 200 characters):''),
                 Print (replicate 50 (CHR ''-'')),
                 Print (if 200 < length transcript then take 200 transcript @ ''...''
                        else transcript),
                 Print (replicate 50 (CHR ''-''))],
              0)))))"

definition network_calls :: "event list \<Rightarrow> event list" where
  "network_calls trace = filter (\<lambda>e. case e of Generate _ \<Rightarrow> True | _ \<Rightarrow> False) trace"

definition files_written :: "event list \<Rightarrow> event list" where
  "files_written trace = filter (\<lambda>e. case e of WriteFile _ _ \<Rightarrow> True | _ \<Rightarrow> False) trace"

definition files_read :: "event list \<Rightarrow> event list" where
  "files_read trace = filter (\<lambda>e. case e of ReadFile _ \<Rightarrow> True | _ \<Rightarrow> False) trace"

section \<open>Notions of the statements\<close>

definition label_joined :: "string \<Rightarrow> bool" where
  \<comment> \<open>a label of speaker 1, plain or bold, stands directly after a beginning of
      \<open>Speaker 1:\<close> that is neither empty nor the whole label\<close>
  "label_joined c =
     list_ex (\<lambda>k. sublist (take k ''Speaker 1:'' @ ''Speaker 1:'') c \<or>
                   sublist (take k ''Speaker 1:'' @ ''**Speaker 1:**'') c) [1..<10]"

definition starts_with_label :: "nat \<Rightarrow> string \<Rightarrow> bool" where
  \<comment> \<open>the trimmed line starts with the label of speaker \<open>i\<close>, plain or bold\<close>
  "starts_with_label i line =
     (prefix (speaker_label i) (py_strip line) \<or> prefix (bold_speaker_label i) (py_strip line))"



definition deleted_texts :: "string list" where
  \<comment> \<open>what the normalization deletes, in the order of the scans\<close>
  "deleted_texts =
     [header_phrase, okay_phrase, heres_phrase, ''**Speaker 1:**'', ''Speaker 1:'']"

definition joined :: "string \<Rightarrow> bool" where
  \<comment> \<open>one of the deleted texts stands directly after a beginning of a deleted text that
      is neither empty nor the whole of it\<close>
  "joined s =
     list_ex (\<lambda>q. list_ex (\<lambda>old. list_ex (\<lambda>k. sublist (take k q @ old) s) [1..<length q])
                     deleted_texts)
       deleted_texts"

definition filesystem_safe :: "char \<Rightarrow> bool" where
  \<comment> \<open>the characters that the cleaning of the description keeps, with the dot of the
      extension and the hyphen\<close>
  "filesystem_safe c = (is_word c \<or> c = CHR ''.'' \<or> c = CHR ''-'')"

section \<open>Sample runs\<close>

definition sample_now :: datetime where
  "sample_now = \<lparr>year = 2025, month = 3, day = 9, hour = 14, minute = 5, second = 7\<rparr>"

definition sample_world :: world where
  "sample_world =
     \<lparr>path_exists = (\<lambda>p. p = ''talk.mp3'' \<or> p = ''notes.txt''),
      read_bytes = (\<lambda>p. Inr ''RIFF''),
      getenv_api_key = Some ''secret'',
      generate_content = (\<lambda>r. Inr \<lparr>candidates =
          [\<lparr>content = Some [Some ''Speaker 1: Hello there''], safety_ratings = []\<rparr>],
          quick_text = Some ''Speaker 1: Hello there''\<rparr>),
      clock = (\<lambda>n. sample_now),
      mkdir = (\<lambda>d. None),
      stat_size_mb = (\<lambda>p. Inr ''0.00''),
      write_text = (\<lambda>p c. None)\<rparr>"

definition blocked_world :: world where
  \<comment> \<open>the same world with a remote service that returns no candidate\<close>
  "blocked_world = sample_world\<lparr>generate_content :=
     (\<lambda>r. Inr \<lparr>candidates = [], quick_text = None\<rparr>)\<rparr>"

definition sample_args :: cli_args where
  "sample_args =
     \<lparr>audio_file = ''talk.mp3'', model = ''flash'', output_dir = ''transcripts'',
      verbose = False\<rparr>"

section \<open>Traces\<close>

lemma network_calls_append: "network_calls (xs @ ys) = network_calls xs @ network_calls ys"
  by (simp add: network_calls_def)

lemma network_calls_banner: "network_calls (banner args) = []"
  by (simp add: network_calls_def banner_def)

lemma select_model_total:
  "select_model k =
     Inr (case map_of MODEL_OPTIONS k of
            None \<Rightarrow> ''models/gemini-2.0-flash-exp''
          | Some m \<Rightarrow> m)"
  by (simp add: select_model_def MODEL_OPTIONS_def DEFAULT_MODEL_def split: option.splits)

lemma transcribe_audio_rejects:
  "\<not> is_audio_file p \<Longrightarrow>
     network_calls (fst (transcribe_audio w p k)) = [] \<and>
     (\<exists>e. snd (transcribe_audio w p k) = Inl e)"
  by (simp add: transcribe_audio_def network_calls_def)

lemma main_rejects:
  "\<not> is_audio_file (audio_file args) \<Longrightarrow>
     snd (main w args) = 1 \<and> network_calls (fst (main w args)) = []"
  by (simp add: main_def Let_def network_calls_append network_calls_banner split: option.splits)
     (simp add: network_calls_def)

section \<open>The MIME table and the extension check\<close>

lemma mime_keys_distinct: "distinct (map fst AUDIO_EXTENSIONS_TO_MIME)"
  by (simp add: AUDIO_EXTENSIONS_TO_MIME_def)

text \<open>
  C5. A path whose extension, in lower case, is a key of the extension table gets the MIME
  type of the table and is accepted as an audio file; the keys are the seven extensions
  \<open>.mp3 .wav .ogg .m4a .mp4 .aac .webm\<close>. Any other path gets \<open>audio/mp4\<close>, is rejected by
  \<open>is_audio_file\<close>, and then neither \<open>transcribe_audio\<close> nor \<open>main\<close> reaches the remote
  call: \<open>transcribe_audio\<close> raises and \<open>main\<close> exits with 1.
\<close>

theorem mime_lookup_and_rejection:
  "(\<forall>ext mime. (ext, mime) \<in> set AUDIO_EXTENSIONS_TO_MIME \<and> py_lower (path_suffix p) = ext \<longrightarrow>
       get_gemini_mime_type p = mime \<and> is_audio_file p) \<and>
   (py_lower (path_suffix p) \<notin> set (map fst AUDIO_EXTENSIONS_TO_MIME) \<longrightarrow>
       get_gemini_mime_type p = ''audio/mp4'' \<and> \<not> is_audio_file p \<and>
       network_calls (fst (transcribe_audio w p k)) = [] \<and>
       (\<exists>e. snd (transcribe_audio w p k) = Inl e) \<and>
       (audio_file args = p \<longrightarrow>
          snd (main w args) = 1 \<and> network_calls (fst (main w args)) = [])) \<and>
   map fst AUDIO_EXTENSIONS_TO_MIME =
     [''.mp3'', ''.wav'', ''.ogg'', ''.m4a'', ''.mp4'', ''.aac'', ''.webm'']"
proof (intro conjI allI impI)
  fix ext mime
  assume "(ext, mime) \<in> set AUDIO_EXTENSIONS_TO_MIME \<and> py_lower (path_suffix p) = ext"
  then have "map_of AUDIO_EXTENSIONS_TO_MIME (py_lower (path_suffix p)) = Some mime"
    using mime_keys_distinct by (simp add: map_of_eq_Some_iff)
  then show "get_gemini_mime_type p = mime" "is_audio_file p"
    by (simp_all add: get_gemini_mime_type_def is_audio_file_def)
next
  assume "py_lower (path_suffix p) \<notin> set (map fst AUDIO_EXTENSIONS_TO_MIME)"
  then have none: "map_of AUDIO_EXTENSIONS_TO_MIME (py_lower (path_suffix p)) = None"
    by (simp add: map_of_eq_None_iff)
  then show "get_gemini_mime_type p = ''audio/mp4''" and na: "\<not> is_audio_file p"
    by (simp_all add: get_gemini_mime_type_def is_audio_file_def)
  from na show "network_calls (fst (transcribe_audio w p k)) = []"
    and "\<exists>e. snd (transcribe_audio w p k) = Inl e"
    using transcribe_audio_rejects by blast+
  assume "audio_file args = p"
  with na show "snd (main w args) = 1" and "network_calls (fst (main w args)) = []"
    using main_rejects by blast+
next
  show "map fst AUDIO_EXTENSIONS_TO_MIME =
     [''.mp3'', ''.wav'', ''.ogg'', ''.m4a'', ''.mp4'', ''.aac'', ''.webm'']"
    by (simp add: AUDIO_EXTENSIONS_TO_MIME_def)
qed

theorem mime_lookup_and_rejection_witness:
  "(''.mp3'', ''audio/mpeg'') \<in> set AUDIO_EXTENSIONS_TO_MIME \<and>
   py_lower (path_suffix ''talks/Song.MP3'') = ''.mp3'' \<and>
   get_gemini_mime_type ''talks/Song.MP3'' = ''audio/mpeg'' \<and>
   is_audio_file ''talks/Song.MP3'' \<and>
   py_lower (path_suffix ''notes.txt'') \<notin> set (map fst AUDIO_EXTENSIONS_TO_MIME) \<and>
   get_gemini_mime_type ''notes.txt'' = ''audio/mp4'' \<and>
   \<not> is_audio_file ''notes.txt'' \<and>
   network_calls (fst (transcribe_audio sample_world ''notes.txt'' ''flash'')) = [] \<and>
   snd (main sample_world (sample_args\<lparr>audio_file := ''notes.txt''\<rparr>)) = 1 \<and>
   network_calls (fst (main sample_world (sample_args\<lparr>audio_file := ''notes.txt''\<rparr>))) = []"
proof -
  have a: "(''.mp3'', ''audio/mpeg'') \<in> set AUDIO_EXTENSIONS_TO_MIME"
    by (simp add: AUDIO_EXTENSIONS_TO_MIME_def)
  have b: "py_lower (path_suffix ''talks/Song.MP3'') = ''.mp3''"
    by code_simp
  have c: "py_lower (path_suffix ''notes.txt'') \<notin> set (map fst AUDIO_EXTENSIONS_TO_MIME)"
    by code_simp
  have d: "audio_file (sample_args\<lparr>audio_file := ''notes.txt''\<rparr>) = ''notes.txt''"
    by simp
  from mime_lookup_and_rejection [of "''talks/Song.MP3''"] a b
  have "get_gemini_mime_type ''talks/Song.MP3'' = ''audio/mpeg'' \<and>
        is_audio_file ''talks/Song.MP3''"
    by blast
  moreover from mime_lookup_and_rejection
      [of "''notes.txt''" sample_world "''flash''" "sample_args\<lparr>audio_file := ''notes.txt''\<rparr>"] c d
  have "get_gemini_mime_type ''notes.txt'' = ''audio/mp4'' \<and>
        \<not> is_audio_file ''notes.txt'' \<and>
        network_calls (fst (transcribe_audio sample_world ''notes.txt'' ''flash'')) = [] \<and>
        snd (main sample_world (sample_args\<lparr>audio_file := ''notes.txt''\<rparr>)) = 1 \<and>
        network_calls (fst (main sample_world (sample_args\<lparr>audio_file := ''notes.txt''\<rparr>))) = []"
    by blast
  ultimately show ?thesis
    using a b c by blast
qed

section \<open>The model selector\<close>



section \<open>Deleting occurrences\<close>




lemma prefix_py_delete:
  "old \<noteq> [] \<Longrightarrow> prefix q (py_replace s old []) \<Longrightarrow>
     prefix q s \<or> (\<exists>k<length q. prefix (take k q @ old) s)"
proof (induction s arbitrary: q rule: length_induct)
  case (1 s)
  show ?case
  proof (cases s)
    case Nil
    with 1 show ?thesis by simp
  next
    case (Cons c cs)
    show ?thesis
    proof (cases q)
      case Nil
      then show ?thesis by simp
    next
      case q: (Cons d q')
      show ?thesis
      proof (cases "prefix old (c # cs)")
        case True
        then have "prefix (take 0 q @ old) s" using Cons by simp
        then show ?thesis using q by auto
      next
        case False
        with 1(2,3) Cons q have d: "d = c" and p: "prefix q' (py_replace cs old [])"
          by auto
        from 1(1) Cons have "prefix q' cs \<or> (\<exists>k<length q'. prefix (take k q' @ old) cs)"
          using p 1(2) by auto
        then show ?thesis
        proof
          assume "prefix q' cs"
          then show ?thesis using q d Cons by simp
        next
          assume "\<exists>k<length q'. prefix (take k q' @ old) cs"
          then obtain k where "k < length q'" "prefix (take k q' @ old) cs" by blast
          then have "Suc k < length q" "prefix (take (Suc k) q @ old) s"
            using q d Cons by auto
          then show ?thesis by blast
        qed
      qed
    qed
  qed
qed

lemma sublist_py_delete:
  "old \<noteq> [] \<Longrightarrow> sublist q (py_replace s old []) \<Longrightarrow>
     sublist q s \<or> (\<exists>k. 0 < k \<and> k < length q \<and> sublist (take k q @ old) s)"
proof (induction s rule: length_induct)
  case (1 s)
  note ih = "1.IH" and old = \<open>old \<noteq> []\<close> and sub = \<open>sublist q (py_replace s old [])\<close>
  show ?case
  proof (cases s)
    case Nil
    with sub old show ?thesis by simp
  next
    case (Cons c cs)
    show ?thesis
    proof (cases "prefix old (c # cs)")
      case True
      let ?r = "drop (length old - 1) cs"
      from True sub old Cons have "sublist q (py_replace ?r old [])"
        by simp
      moreover have "length ?r < length s"
        using Cons by simp
      ultimately have "sublist q ?r \<or>
          (\<exists>k. 0 < k \<and> k < length q \<and> sublist (take k q @ old) ?r)"
        using ih old by blast
      moreover have "sublist ?r s"
        unfolding Cons by (meson sublist_Cons_right sublist_drop)
      ultimately show ?thesis
        by (meson sublist_order.order_trans)
    next
      case False
      with sub old Cons have "sublist q (c # py_replace cs old [])" by simp
      then consider (head) "prefix q (c # py_replace cs old [])"
        | (tail) "sublist q (py_replace cs old [])"
        by (auto simp: sublist_Cons_right)
      then show ?thesis
      proof cases
        case head
        then have "prefix q (py_replace s old [])" using False old Cons by simp
        from prefix_py_delete [OF old this]
        have "prefix q s \<or> (\<exists>k<length q. prefix (take k q @ old) s)" .
        then show ?thesis
        proof
          assume "prefix q s" then show ?thesis by blast
        next
          assume "\<exists>k<length q. prefix (take k q @ old) s"
          then obtain k where k: "k < length q" "prefix (take k q @ old) s" by blast
          with False Cons have "k \<noteq> 0" by (cases k) auto
          with k show ?thesis by (meson prefix_imp_sublist neq0_conv)
        qed
      next
        case tail
        with ih old Cons
        have "sublist q cs \<or> (\<exists>k. 0 < k \<and> k < length q \<and> sublist (take k q @ old) cs)"
          by simp
        then show ?thesis unfolding Cons by (meson sublist_Cons_right)
      qed
    qed
  qed
qed

lemma py_delete_leaves_none:
  assumes old: "old \<noteq> []" and sub: "sublist old (py_replace s old [])"
  shows "\<exists>k. 0 < k \<and> k < length old \<and> sublist (take k old @ old) s"
  using sub
proof (induction s rule: length_induct)
  case (1 s)
  note ih = "1.IH" and sub = \<open>sublist old (py_replace s old [])\<close>
  show ?case
  proof (cases s)
    case Nil
    with sub old show ?thesis by simp
  next
    case (Cons c cs)
    show ?thesis
    proof (cases "prefix old (c # cs)")
      case True
      let ?r = "drop (length old - 1) cs"
      from True sub old Cons have "sublist old (py_replace ?r old [])"
        by simp
      moreover have "length ?r < length s"
        using Cons by simp
      ultimately have "\<exists>k. 0 < k \<and> k < length old \<and> sublist (take k old @ old) ?r"
        using ih by blast
      moreover have "sublist ?r s"
        unfolding Cons by (meson sublist_Cons_right sublist_drop)
      ultimately show ?thesis
        by (meson sublist_order.order_trans)
    next
      case False
      with sub old Cons have "sublist old (c # py_replace cs old [])" by simp
      then consider (head) "prefix old (c # py_replace cs old [])"
        | (tail) "sublist old (py_replace cs old [])"
        by (auto simp: sublist_Cons_right)
      then show ?thesis
      proof cases
        case head
        then have "prefix old (py_replace s old [])" using False old Cons by simp
        from prefix_py_delete [OF old this] False Cons
        obtain k where k: "k < length old" "prefix (take k old @ old) s" by blast
        with False Cons have "k \<noteq> 0" by (cases k) auto
        with k show ?thesis by (meson prefix_imp_sublist neq0_conv)
      next
        case tail
        with ih Cons
        have "\<exists>k. 0 < k \<and> k < length old \<and> sublist (take k old @ old) cs"
          by simp
        then show ?thesis unfolding Cons by (meson sublist_Cons_right)
      qed
    qed
  qed
qed

section \<open>Trimming\<close>

lemma prefix_py_strip_aux: "prefix (rev (dropWhile P (rev d))) d"
proof -
  have "d = rev (takeWhile P (rev d) @ dropWhile P (rev d))"
    by simp
  then have "d = rev (dropWhile P (rev d)) @ rev (takeWhile P (rev d))"
    by (simp only: rev_append)
  then show ?thesis
    by (metis prefixI)
qed

lemma sublist_py_strip: "sublist (py_strip s) s"
proof -
  have "sublist (py_strip s) (dropWhile is_space s)"
    unfolding py_strip_def by (rule prefix_imp_sublist [OF prefix_py_strip_aux])
  moreover have "sublist (dropWhile is_space s) s"
    by (simp add: suffix_dropWhile)
  ultimately show ?thesis
    by (rule sublist_order.order_trans)
qed



lemma plain_in_bold: "sublist ''Speaker 1:'' ''**Speaker 1:**''"
  by code_simp

lemma two_pass_delete:
  assumes p: "p \<noteq> []" and b: "b \<noteq> []"
    and nj: "\<And>k. 0 < k \<Longrightarrow> k < length p \<Longrightarrow>
      \<not> sublist (take k p @ p) c \<and> \<not> sublist (take k p @ b) c"
  shows "\<not> sublist p (py_replace (py_replace c b []) p [])"
proof
  let ?c1 = "py_replace c b []"
  assume "sublist p (py_replace ?c1 p [])"
  then obtain k where k: "0 < k" "k < length p" and s1: "sublist (take k p @ p) ?c1"
    using py_delete_leaves_none [OF p] by blast
  define q where "q = take k p @ p"
  have lq: "length q = k + length p" using k by (simp add: q_def)
  from sublist_py_delete [OF b, of q c] s1
  consider (direct) "sublist q c"
    | (joined) j where "0 < j" "j < length q" "sublist (take j q @ b) c"
    unfolding q_def by blast
  then show False
  proof cases
    case direct
    with k nj show False unfolding q_def by blast
  next
    case joined
    show False
    proof (cases "j \<le> k")
      case True
      then have "take j q = take j p" using k by (simp add: q_def min_def)
      with joined have "sublist (take j p @ b) c" by simp
      moreover have "0 < j" "j < length p" using joined True k by auto
      ultimately show False using nj by blast
    next
      case False
      then have "take j q = take k p @ take (j - k) p" using k by (simp add: q_def)
      with joined have "sublist (take k p @ (take (j - k) p @ b)) c" by simp
      moreover have "sublist (take (j - k) p @ b) (take k p @ (take (j - k) p @ b))"
        by (rule sublist_append_leftI)
      ultimately have "sublist (take (j - k) p @ b) c"
        by (meson sublist_order.order_trans)
      moreover have "0 < j - k" "j - k < length p" using joined False lq by auto
      ultimately show False using nj by blast
    qed
  qed
qed

lemma labels_deleted:
  assumes nj: "\<not> label_joined c"
  shows "\<not> sublist ''Speaker 1:'' (py_replace (py_replace c ''**Speaker 1:**'' []) ''Speaker 1:'' [])"
proof (rule two_pass_delete)
  fix k :: nat
  assume "0 < k" and "k < length ''Speaker 1:''"
  then have "k \<in> set [1..<10]" by simp
  with nj show "\<not> sublist (take k ''Speaker 1:'' @ ''Speaker 1:'') c \<and>
      \<not> sublist (take k ''Speaker 1:'' @ ''**Speaker 1:**'') c"
    unfolding label_joined_def list_ex_iff by blast
qed simp_all

lemma line_speakers_member:
  assumes "starts_with_label i line" and "1 \<le> i" and "i < 10"
  shows "i \<in> set (line_speakers line)"
proof -
  have pre: "prefix ''Speaker '' (speaker_label i)" "prefix ''**Speaker '' (bold_speaker_label i)"
    by (simp_all add: speaker_label_def bold_speaker_label_def)
  from assms(1) have
    "(prefix ''Speaker '' (py_strip line) \<or> prefix ''**Speaker '' (py_strip line)) \<and>
     (sublist (speaker_label i) line \<or> sublist (bold_speaker_label i) line)"
    unfolding starts_with_label_def
    using pre sublist_py_strip [of line]
    by (meson prefix_imp_sublist prefix_order.order_trans sublist_order.order_trans)
  with assms(2,3) show ?thesis
    by (simp add: line_speakers_def)
qed

lemma two_speakers_detected:
  assumes "\<exists>l\<in>set (py_split_on newline c). starts_with_label 1 l"
    and "\<exists>l\<in>set (py_split_on newline c). starts_with_label 2 l"
  shows "length (speaker_labels c) \<noteq> 1"
proof -
  let ?xs = "concat (map line_speakers (py_split_on newline c))"
  from assms(1) have "1 \<in> set ?xs"
    using line_speakers_member [of 1] by fastforce
  moreover from assms(2) have "2 \<in> set ?xs"
    using line_speakers_member [of 2] by fastforce
  ultimately have "{1, 2} \<subseteq> set ?xs" by simp
  then have "card {1, 2 :: nat} \<le> card (set ?xs)"
    by (intro card_mono) auto
  then have "2 \<le> length (remdups ?xs)"
    by (simp add: length_remdups_card_conv)
  then show ?thesis by (simp add: speaker_labels_def)
qed

section \<open>Speaker labels\<close>

text \<open>
  C2, as amended. The speakers are counted on the cleaned transcript, on the lines that
  start with \<open>Speaker\<close> or \<open>**Speaker\<close>. When exactly one speaker number is counted, and no
  label of speaker 1 stands directly after a beginning of \<open>Speaker 1:\<close> (which a deletion
  would join to a new label), the result contains neither \<open>Speaker 1:\<close> nor
  \<open>**Speaker 1:**\<close>. When the count is not one, and in particular when one line starts with
  a label of speaker 1 and one with a label of speaker 2, the cleaned transcript is
  returned as it is.
\<close>

theorem single_speaker_collapse:
  "(length (speaker_labels (clean_up_transcript t)) = 1 \<and> \<not> label_joined (clean_up_transcript t) \<longrightarrow>
      \<not> sublist ''Speaker 1:'' (normalize_transcript t) \<and>
      \<not> sublist ''**Speaker 1:**'' (normalize_transcript t)) \<and>
   (length (speaker_labels (clean_up_transcript t)) \<noteq> 1 \<longrightarrow>
      normalize_transcript t = clean_up_transcript t) \<and>
   ((\<exists>l\<in>set (py_split_on newline (clean_up_transcript t)). starts_with_label 1 l) \<and>
    (\<exists>l\<in>set (py_split_on newline (clean_up_transcript t)). starts_with_label 2 l) \<longrightarrow>
      normalize_transcript t = clean_up_transcript t)"
proof (intro conjI impI)
  let ?c = "clean_up_transcript t"
  assume a: "length (speaker_labels ?c) = 1 \<and> \<not> label_joined ?c"
  let ?d = "py_replace (py_replace ?c ''**Speaker 1:**'' []) ''Speaker 1:'' []"
  have n: "normalize_transcript t = py_strip ?d"
    using a by (simp add: normalize_transcript_def remove_single_speaker_labels_def)
  have "\<not> sublist ''Speaker 1:'' ?d"
    using a labels_deleted by blast
  then show plain: "\<not> sublist ''Speaker 1:'' (normalize_transcript t)"
    unfolding n using sublist_py_strip [of ?d] by (meson sublist_order.order_trans)
  then show "\<not> sublist ''**Speaker 1:**'' (normalize_transcript t)"
    using plain_in_bold by (meson sublist_order.order_trans)
next
  assume "length (speaker_labels (clean_up_transcript t)) \<noteq> 1"
  then show "normalize_transcript t = clean_up_transcript t"
    by (simp add: normalize_transcript_def remove_single_speaker_labels_def)
next
  assume "(\<exists>l\<in>set (py_split_on newline (clean_up_transcript t)). starts_with_label 1 l) \<and>
    (\<exists>l\<in>set (py_split_on newline (clean_up_transcript t)). starts_with_label 2 l)"
  then have "length (speaker_labels (clean_up_transcript t)) \<noteq> 1"
    using two_speakers_detected by blast
  then show "normalize_transcript t = clean_up_transcript t"
    by (simp add: normalize_transcript_def remove_single_speaker_labels_def)
qed

theorem single_speaker_collapse_witness:
  "length (speaker_labels (clean_up_transcript ''Speaker 1: Hello there.\<newline>Speaker 1: Bye.'')) = 1 \<and>
   \<not> label_joined (clean_up_transcript ''Speaker 1: Hello there.\<newline>Speaker 1: Bye.'') \<and>
   \<not> sublist ''Speaker 1:'' (normalize_transcript ''Speaker 1: Hello there.\<newline>Speaker 1: Bye.'') \<and>
   \<not> sublist ''**Speaker 1:**'' (normalize_transcript ''Speaker 1: Hello there.\<newline>Speaker 1: Bye.'') \<and>
   (\<exists>l\<in>set (py_split_on newline (clean_up_transcript ''Speaker 1: Hi.\<newline>Speaker 2: Hello.'')).
      starts_with_label 1 l) \<and>
   (\<exists>l\<in>set (py_split_on newline (clean_up_transcript ''Speaker 1: Hi.\<newline>Speaker 2: Hello.'')).
      starts_with_label 2 l) \<and>
   normalize_transcript ''Speaker 1: Hi.\<newline>Speaker 2: Hello.'' =
     clean_up_transcript ''Speaker 1: Hi.\<newline>Speaker 2: Hello.''"
proof -
  let ?t1 = "''Speaker 1: Hello there.\<newline>Speaker 1: Bye.''"
  let ?t2 = "''Speaker 1: Hi.\<newline>Speaker 2: Hello.''"
  have a: "length (speaker_labels (clean_up_transcript ?t1)) = 1"
    by code_simp
  have b: "\<not> label_joined (clean_up_transcript ?t1)"
    by code_simp
  have c: "\<exists>l\<in>set (py_split_on newline (clean_up_transcript ?t2)). starts_with_label 1 l"
    by code_simp
  have d: "\<exists>l\<in>set (py_split_on newline (clean_up_transcript ?t2)). starts_with_label 2 l"
    by code_simp
  from single_speaker_collapse [of ?t1] a b
  have "\<not> sublist ''Speaker 1:'' (normalize_transcript ?t1) \<and>
        \<not> sublist ''**Speaker 1:**'' (normalize_transcript ?t1)"
    by blast
  moreover from single_speaker_collapse [of ?t2] c d
  have "normalize_transcript ?t2 = clean_up_transcript ?t2"
    by blast
  ultimately show ?thesis
    using a b c d by blast
qed

theorem single_speaker_collapse_counterexample:
  "length (speaker_labels (clean_up_transcript ''Speaker Speaker 1:1: hi'')) = 1 \<and>
   normalize_transcript ''Speaker Speaker 1:1: hi'' = ''Speaker 1: hi'' \<and>
   sublist ''Speaker 1:'' (normalize_transcript ''Speaker Speaker 1:1: hi'') \<and>
   normalize_transcript ''Intro. Speaker 1: hello'' = ''Intro. Speaker 1: hello'' \<and>
   sublist ''Speaker 1:'' ''Speaker 1: hello\<newline>then Speaker 2: hi'' \<and>
   sublist ''Speaker 2:'' ''Speaker 1: hello\<newline>then Speaker 2: hi'' \<and>
   normalize_transcript ''Speaker 1: hello\<newline>then Speaker 2: hi'' = ''hello\<newline>then Speaker 2: hi''"
  by code_simp

section \<open>Joining and splitting scans\<close>





section \<open>Normalizing twice\<close>













section \<open>Header phrases\<close>








section \<open>Failures of the run\<close>

lemma files_written_append: "files_written (xs @ ys) = files_written xs @ files_written ys"
  by (simp add: files_written_def)

lemma files_read_append: "files_read (xs @ ys) = files_read xs @ files_read ys"
  by (simp add: files_read_def)

lemma banner_quiet:
  "files_written (banner args) = []" "files_read (banner args) = []"
  by (simp_all add: files_written_def files_read_def banner_def)

lemma transcribe_audio_writes_nothing: "files_written (fst (transcribe_audio w p k)) = []"
  by (simp add: transcribe_audio_def files_written_def select_model_total Let_def
      split: sum.splits)

lemma get_api_key_missing:
  "getenv_api_key w = None \<or> getenv_api_key w = Some [] \<Longrightarrow>
     get_api_key w = Inl (Exn ValueError missing_key_message)"
  by (auto simp: get_api_key_def)

lemma transcribe_audio_without_key:
  assumes "getenv_api_key w = None \<or> getenv_api_key w = Some []"
  shows "network_calls (fst (transcribe_audio w p k)) = []"
    and "\<exists>e. snd (transcribe_audio w p k) = Inl e"
  using get_api_key_missing [OF assms]
  by (simp_all add: transcribe_audio_def network_calls_def select_model_total Let_def
      split: sum.splits)

lemma main_failure:
  assumes "\<exists>e. snd (transcribe_audio w (audio_file args) (model args)) = Inl e"
  shows "snd (main w args) = 1"
    and "files_written (fst (main w args)) = []"
    and "network_calls (fst (main w args)) =
           (if map_of MODEL_OPTIONS (model args) \<noteq> None \<and> path_exists w (audio_file args) \<and>
               is_audio_file (audio_file args)
            then network_calls (fst (transcribe_audio w (audio_file args) (model args)))
            else [])"
proof -
  from assms obtain t e where te: "transcribe_audio w (audio_file args) (model args) = (t, Inl e)"
    by (cases "transcribe_audio w (audio_file args) (model args)") auto
  have tw: "files_written t = []"
    using transcribe_audio_writes_nothing [of w "audio_file args" "model args"] te by simp
  show "snd (main w args) = 1"
    by (simp add: main_def Let_def te split: option.splits)
  show "files_written (fst (main w args)) = []"
    by (simp add: main_def Let_def te files_written_append banner_quiet tw split: option.splits)
      (simp add: files_written_def tw [unfolded files_written_def])
  show "network_calls (fst (main w args)) =
           (if map_of MODEL_OPTIONS (model args) \<noteq> None \<and> path_exists w (audio_file args) \<and>
               is_audio_file (audio_file args)
            then network_calls (fst (transcribe_audio w (audio_file args) (model args)))
            else [])"
    by (simp add: main_def Let_def te network_calls_append network_calls_banner
        split: option.splits) (simp add: network_calls_def)
qed

text \<open>
  C6, as amended. When the variable \<open>GOOGLE_AI_API_KEY\<close> is unset or empty, the run fails
  before any network activity and writes no output file, and the command exits with 1.
  The key is looked up only after the existence and extension checks and after the audio
  file has been read: for an existing, readable audio file the events are the existence
  check and the read, and the error is the \<open>ValueError\<close> that names the variable.
\<close>

theorem missing_api_key_fails_before_network:
  "getenv_api_key w = None \<or> getenv_api_key w = Some [] \<Longrightarrow>
     (\<exists>e. snd (transcribe_audio w p k) = Inl e) \<and>
     network_calls (fst (transcribe_audio w p k)) = [] \<and>
     snd (main w args) = 1 \<and>
     network_calls (fst (main w args)) = [] \<and>
     files_written (fst (main w args)) = [] \<and>
     (path_exists w p \<and> is_audio_file p \<and> read_bytes w p = Inr audio_data \<longrightarrow>
        transcribe_audio w p k =
          ([Exists p, ReadFile p], Inl (Exn ValueError missing_key_message)))"
proof -
  assume k: "getenv_api_key w = None \<or> getenv_api_key w = Some []"
  note t = transcribe_audio_without_key [OF k]
  have "path_exists w p \<and> is_audio_file p \<and> read_bytes w p = Inr audio_data \<longrightarrow>
        transcribe_audio w p k =
          ([Exists p, ReadFile p], Inl (Exn ValueError missing_key_message))"
    by (simp add: transcribe_audio_def select_model_total Let_def get_api_key_missing [OF k])
  moreover have "network_calls (fst (main w args)) = []"
    using main_failure(3) [OF t(2), of args] t(1) by simp
  ultimately show ?thesis
    using t main_failure(1,2) [OF t(2), of args] by blast
qed

theorem missing_api_key_fails_before_network_witness:
  "getenv_api_key (sample_world\<lparr>getenv_api_key := None\<rparr>) = None \<and>
   path_exists (sample_world\<lparr>getenv_api_key := None\<rparr>) ''talk.mp3'' \<and>
   is_audio_file ''talk.mp3'' \<and>
   read_bytes (sample_world\<lparr>getenv_api_key := None\<rparr>) ''talk.mp3'' = Inr ''RIFF'' \<and>
   transcribe_audio (sample_world\<lparr>getenv_api_key := None\<rparr>) ''talk.mp3'' ''flash'' =
     ([Exists ''talk.mp3'', ReadFile ''talk.mp3''], Inl (Exn ValueError missing_key_message)) \<and>
   snd (main (sample_world\<lparr>getenv_api_key := None\<rparr>) sample_args) = 1 \<and>
   network_calls (fst (main (sample_world\<lparr>getenv_api_key := None\<rparr>) sample_args)) = [] \<and>
   files_written (fst (main (sample_world\<lparr>getenv_api_key := None\<rparr>) sample_args)) = []"
proof -
  let ?w = "sample_world\<lparr>getenv_api_key := None\<rparr>"
  have a: "getenv_api_key ?w = None \<or> getenv_api_key ?w = Some []"
    by simp
  have b: "path_exists ?w ''talk.mp3''" "read_bytes ?w ''talk.mp3'' = Inr ''RIFF''"
    by (simp_all add: sample_world_def)
  have c: "is_audio_file ''talk.mp3''"
    by code_simp
  from missing_api_key_fails_before_network [OF a, of "''talk.mp3''" "''flash''" sample_args "''RIFF''"]
    b c
  show ?thesis by simp
qed

theorem missing_api_key_counterexample:
  "fst (transcribe_audio (sample_world\<lparr>getenv_api_key := None\<rparr>) ''talk.mp3'' ''flash'') =
     [Exists ''talk.mp3'', ReadFile ''talk.mp3''] \<and>
   snd (transcribe_audio (sample_world\<lparr>getenv_api_key := None\<rparr>) ''talk.mp3'' ''flash'') =
     Inl (Exn ValueError missing_key_message) \<and>
   files_read (fst (main (sample_world\<lparr>getenv_api_key := None\<rparr>) sample_args)) =
     [ReadFile ''talk.mp3'']"
proof -
  have c: "is_audio_file ''talk.mp3''"
    by code_simp
  have m: "map_of MODEL_OPTIONS ''flash'' = Some ''models/gemini-2.0-flash-exp''"
    by (simp add: MODEL_OPTIONS_def)
  have t: "transcribe_audio (sample_world\<lparr>getenv_api_key := None\<rparr>) ''talk.mp3'' ''flash'' =
     ([Exists ''talk.mp3'', ReadFile ''talk.mp3''], Inl (Exn ValueError missing_key_message))"
    by (simp add: transcribe_audio_def select_model_total Let_def get_api_key_def c
        sample_world_def)
  show ?thesis
    by (simp add: t main_def Let_def sample_args_def m c files_read_append banner_quiet)
      (simp add: files_read_def sample_world_def)
qed

lemma is_blocked_iff:
  "is_blocked r \<longleftrightarrow>
     candidates r = [] \<or>
     (\<exists>c cs. candidates r = c # cs \<and> (content c = None \<or> content c = Some []))"
  by (auto simp: is_blocked_def split: list.splits option.splits)

lemma transcribe_audio_blocked:
  assumes "\<And>req. \<exists>resp. generate_content w req = Inr resp \<and> is_blocked resp"
  shows "\<exists>e. snd (transcribe_audio w p k) = Inl e"
    and "path_exists w p \<Longrightarrow> is_audio_file p \<Longrightarrow> read_bytes w p = Inr audio_data \<Longrightarrow>
         get_api_key w = Inr key \<Longrightarrow>
         snd (transcribe_audio w p k) = Inl (Exn ValueError blocked_message)"
proof -
  define req where "req = \<lparr>req_model = (case map_of MODEL_OPTIONS k of
        None \<Rightarrow> ''models/gemini-2.0-flash-exp'' | Some m \<Rightarrow> m),
      req_mime_type = get_gemini_mime_type p, req_data = audio_data\<rparr>"
  have gen: "\<And>r. \<exists>resp. generate_content w r = Inr resp \<and> is_blocked resp"
    using assms by blast
  show "\<exists>e. snd (transcribe_audio w p k) = Inl e"
  proof (cases "read_bytes w p")
    case (Inl e)
    then show ?thesis
      by (simp add: transcribe_audio_def select_model_total Let_def)
  next
    case (Inr d)
    obtain resp where "generate_content w
        \<lparr>req_model = (case map_of MODEL_OPTIONS k of
            None \<Rightarrow> ''models/gemini-2.0-flash-exp'' | Some m \<Rightarrow> m),
          req_mime_type = get_gemini_mime_type p, req_data = d\<rparr> = Inr resp" "is_blocked resp"
      using gen by blast
    with Inr show ?thesis
      by (simp add: transcribe_audio_def select_model_total Let_def split: sum.splits)
  qed
  assume "path_exists w p" "is_audio_file p" "read_bytes w p = Inr audio_data"
    "get_api_key w = Inr key"
  moreover obtain resp where "generate_content w req = Inr resp" "is_blocked resp"
    using gen by blast
  ultimately show "snd (transcribe_audio w p k) = Inl (Exn ValueError blocked_message)"
    by (simp add: transcribe_audio_def select_model_total Let_def req_def)
qed

text \<open>
  C7. When the response has no candidate, or its first candidate has no content or no
  parts, \<open>transcribe_audio\<close> raises, the command exits with 1 and no output file is
  written; once the call has reached the response, the error is the \<open>ValueError\<close> whose
  message says that the transcription was blocked, and its message is the last line
  printed.
\<close>

theorem blocked_response_fails:
  "(\<forall>req. \<exists>resp. generate_content w req = Inr resp \<and>
      (candidates resp = [] \<or>
       (\<exists>c cs. candidates resp = c # cs \<and> (content c = None \<or> content c = Some [])))) \<Longrightarrow>
   (\<exists>e. snd (transcribe_audio w p k) = Inl e) \<and>
   snd (main w args) = 1 \<and>
   files_written (fst (main w args)) = [] \<and>
   (path_exists w p \<and> is_audio_file p \<and> read_bytes w p = Inr audio_data \<and>
    get_api_key w = Inr key \<longrightarrow>
      snd (transcribe_audio w p k) = Inl (Exn ValueError blocked_message) \<and>
      (audio_file args = p \<and> model args = k \<and> k \<in> set model_choices \<longrightarrow>
         last (fst (main w args)) = Print (''Error: '' @ blocked_message)))"
proof -
  assume "\<forall>req. \<exists>resp. generate_content w req = Inr resp \<and>
      (candidates resp = [] \<or>
       (\<exists>c cs. candidates resp = c # cs \<and> (content c = None \<or> content c = Some [])))"
  then have gen: "\<And>req. \<exists>resp. generate_content w req = Inr resp \<and> is_blocked resp"
    unfolding is_blocked_iff by blast
  note t = transcribe_audio_blocked [OF gen]
  have fail: "\<And>a. \<exists>e. snd (transcribe_audio w (audio_file a) (model a)) = Inl e"
    using t(1) by blast
  have "last (fst (main w args)) = Print (''Error: '' @ blocked_message)"
    if r: "path_exists w p" "is_audio_file p" "read_bytes w p = Inr audio_data"
      "get_api_key w = Inr key" and a: "audio_file args = p" "model args = k"
      "k \<in> set model_choices"
  proof -
    have "snd (transcribe_audio w p k) = Inl (Exn ValueError blocked_message)"
      using t(2) [OF r] by blast
    then obtain tr where
      tr: "transcribe_audio w p k = (tr, Inl (Exn ValueError blocked_message))"
      by (cases "transcribe_audio w p k") auto
    from a(3) have "map_of MODEL_OPTIONS k \<noteq> None"
      by (auto simp: model_choices_def MODEL_OPTIONS_def)
    then show ?thesis
      using r a tr by (auto simp: main_def Let_def)
  qed
  then show ?thesis
    using t main_failure(1,2) [OF fail, of args] by blast
qed

theorem blocked_response_fails_witness:
  "(\<forall>req. \<exists>resp. generate_content blocked_world req = Inr resp \<and>
      (candidates resp = [] \<or>
       (\<exists>c cs. candidates resp = c # cs \<and> (content c = None \<or> content c = Some [])))) \<and>
   path_exists blocked_world ''talk.mp3'' \<and> is_audio_file ''talk.mp3'' \<and>
   read_bytes blocked_world ''talk.mp3'' = Inr ''RIFF'' \<and>
   get_api_key blocked_world = Inr ''secret'' \<and>
   audio_file sample_args = ''talk.mp3'' \<and> model sample_args = ''flash'' \<and>
   ''flash'' \<in> set model_choices \<and>
   snd (transcribe_audio blocked_world ''talk.mp3'' ''flash'') =
     Inl (Exn ValueError blocked_message) \<and>
   snd (main blocked_world sample_args) = 1 \<and>
   files_written (fst (main blocked_world sample_args)) = [] \<and>
   last (fst (main blocked_world sample_args)) = Print (''Error: '' @ blocked_message)"
proof -
  have a: "\<forall>req. \<exists>resp. generate_content blocked_world req = Inr resp \<and>
      (candidates resp = [] \<or>
       (\<exists>c cs. candidates resp = c # cs \<and> (content c = None \<or> content c = Some [])))"
    by (simp add: blocked_world_def)
  have b: "path_exists blocked_world ''talk.mp3''"
    "read_bytes blocked_world ''talk.mp3'' = Inr ''RIFF''"
    "get_api_key blocked_world = Inr ''secret''"
    by (simp_all add: blocked_world_def sample_world_def get_api_key_def)
  have c: "is_audio_file ''talk.mp3''"
    by code_simp
  have d: "audio_file sample_args = ''talk.mp3''" "model sample_args = ''flash''"
    "''flash'' \<in> set model_choices"
    by (simp_all add: sample_args_def model_choices_def)
  from blocked_response_fails
    [OF a, of "''talk.mp3''" "''flash''" sample_args "''RIFF''" "''secret''"] b c d
  have "snd (transcribe_audio blocked_world ''talk.mp3'' ''flash'') =
     Inl (Exn ValueError blocked_message) \<and>
   snd (main blocked_world sample_args) = 1 \<and>
   files_written (fst (main blocked_world sample_args)) = [] \<and>
   last (fst (main blocked_world sample_args)) = Print (''Error: '' @ blocked_message)"
    by blast
  with a b c d show ?thesis by blast
qed

text \<open>
  C8. For an input path that does not exist, the command exits with 1 without reading
  the file, calling the remote service or writing a file; with a model among the choices
  of the command line, the last line printed says that the audio file was not found.
\<close>

theorem missing_file_exits_1:
  "\<not> path_exists w (audio_file args) \<Longrightarrow>
     snd (main w args) = 1 \<and>
     network_calls (fst (main w args)) = [] \<and>
     files_read (fst (main w args)) = [] \<and>
     files_written (fst (main w args)) = [] \<and>
     (model args \<in> set model_choices \<longrightarrow>
        last (fst (main w args)) = Print (''Error: Audio file not found: '' @ audio_file args))"
proof -
  assume ne: "\<not> path_exists w (audio_file args)"
  have "model args \<in> set model_choices \<longrightarrow>
        last (fst (main w args)) = Print (''Error: Audio file not found: '' @ audio_file args)"
    using ne by (auto simp: main_def Let_def model_choices_def MODEL_OPTIONS_def)
  moreover have "snd (main w args) = 1"
    using ne by (simp add: main_def Let_def split: option.splits)
  moreover have "network_calls (fst (main w args)) = []"
    using ne by (simp add: main_def Let_def network_calls_append network_calls_banner
        split: option.splits) (simp add: network_calls_def)
  moreover have "files_read (fst (main w args)) = []"
    using ne by (simp add: main_def Let_def files_read_append banner_quiet
        split: option.splits) (simp add: files_read_def)
  moreover have "files_written (fst (main w args)) = []"
    using ne by (simp add: main_def Let_def files_written_append banner_quiet
        split: option.splits) (simp add: files_written_def)
  ultimately show ?thesis by blast
qed

theorem missing_file_exits_1_witness:
  "\<not> path_exists sample_world (audio_file (sample_args\<lparr>audio_file := ''gone.mp3''\<rparr>)) \<and>
   model (sample_args\<lparr>audio_file := ''gone.mp3''\<rparr>) \<in> set model_choices \<and>
   snd (main sample_world (sample_args\<lparr>audio_file := ''gone.mp3''\<rparr>)) = 1 \<and>
   network_calls (fst (main sample_world (sample_args\<lparr>audio_file := ''gone.mp3''\<rparr>))) = [] \<and>
   files_read (fst (main sample_world (sample_args\<lparr>audio_file := ''gone.mp3''\<rparr>))) = [] \<and>
   last (fst (main sample_world (sample_args\<lparr>audio_file := ''gone.mp3''\<rparr>))) =
     Print ''Error: Audio file not found: gone.mp3''"
proof -
  let ?a = "sample_args\<lparr>audio_file := ''gone.mp3''\<rparr>"
  have a: "\<not> path_exists sample_world (audio_file ?a)"
    by (simp add: sample_world_def)
  have b: "model ?a \<in> set model_choices"
    by (simp add: sample_args_def model_choices_def)
  from missing_file_exits_1 [OF a] a b show ?thesis
    by simp
qed

section \<open>Pieces of a text\<close>

lemma split_where_not_Nil: "split_where P s \<noteq> []"
  by (induction s) (auto split: list.splits)

lemma split_where_pieces:
  "w \<in> set (split_where P s) \<Longrightarrow> set w \<subseteq> set s \<and> (\<forall>c\<in>set w. \<not> P c)"
proof (induction s arbitrary: w)
  case Nil
  then show ?case by simp
next
  case (Cons c cs)
  show ?case
  proof (cases "P c")
    case True
    with Cons show ?thesis by auto
  next
    case False
    obtain v vs where v: "split_where P cs = v # vs"
      using split_where_not_Nil [of P cs] by (cases "split_where P cs") auto
    with Cons.prems False have "w = c # v \<or> w \<in> set vs" by auto
    then show ?thesis
    proof
      assume "w = c # v"
      moreover have "set v \<subseteq> set cs \<and> (\<forall>c\<in>set v. \<not> P c)"
        using Cons.IH [of v] v by simp
      ultimately show ?thesis using False by auto
    next
      assume "w \<in> set vs"
      then have "set w \<subseteq> set cs \<and> (\<forall>c\<in>set w. \<not> P c)"
        using Cons.IH [of w] v by simp
      then show ?thesis by auto
    qed
  qed
qed

lemma split_where_free: "\<forall>c\<in>set v. \<not> P c \<Longrightarrow> split_where P v = [v]"
  by (induction v) auto

lemma split_where_append:
  "P x \<Longrightarrow> split_where P (u @ x # v) = split_where P u @ split_where P v"
proof (induction u)
  case Nil
  then show ?case by simp
next
  case (Cons c cs)
  obtain w ws where w: "split_where P cs = w # ws"
    using split_where_not_Nil [of P cs] by (cases "split_where P cs") auto
  with Cons show ?case by simp
qed

lemma set_py_strip: "set (py_strip s) \<subseteq> set s"
  by (rule set_mono_sublist [OF sublist_py_strip])

lemma set_py_replace: "set (py_replace s old new) \<subseteq> set s \<union> set new"
proof (induction s rule: length_induct)
  case (1 s)
  show ?case
  proof (cases s)
    case Nil
    then show ?thesis by auto
  next
    case (Cons c cs)
    have a: "set (py_replace cs old new) \<subseteq> set cs \<union> set new"
      using 1 Cons by simp
    have "set (py_replace (drop (length old - 1) cs) old new)
            \<subseteq> set (drop (length old - 1) cs) \<union> set new"
      using 1 Cons by simp
    then have b: "set (py_replace (drop (length old - 1) cs) old new) \<subseteq> set cs \<union> set new"
      using set_drop_subset [of "length old - 1" cs] by blast
    from a b show ?thesis
      unfolding Cons by auto
  qed
qed

lemma set_sub_speaker_labels: "set (sub_speaker_labels s) \<subseteq> set s"
proof (induction s rule: length_induct)
  case (1 s)
  show ?case
  proof (cases s)
    case Nil
    then show ?thesis by simp
  next
    case (Cons c cs)
    have a: "set (sub_speaker_labels cs) \<subseteq> set cs"
      using 1 Cons by simp
    have b: "set (sub_speaker_labels (drop n cs)) \<subseteq> set cs" for n
    proof -
      have "set (sub_speaker_labels (drop n cs)) \<subseteq> set (drop n cs)"
        using 1 Cons by simp
      then show ?thesis using set_drop_subset [of n cs] by blast
    qed
    from a b show ?thesis
      unfolding Cons by (auto split: option.splits)
  qed
qed

lemma set_collapse_separators:
  "c \<in> set (collapse_separators s) \<Longrightarrow> c = CHR ''_'' \<or> (c \<in> set s \<and> \<not> is_separator c)"
proof (induction s rule: collapse_separators.induct)
  case 1
  then show ?case by simp
next
  case (2 d ds)
  then show ?case
    by (auto split: if_splits dest: set_dropWhileD)
qed

lemma is_word_underscore: "is_word (CHR ''_'')"
  by (simp add: is_word_def)

lemma ascii_letter_alpha: "is_ascii_letter c \<Longrightarrow> is_alpha c"
  by (auto simp: is_ascii_letter_def is_alpha_def Let_def)

lemma space_not_alpha: "\<not> is_alpha (CHR '' '')"
  by (simp add: is_alpha_def)

lemma describe_word_chars: "list_all is_word (describe t) \<and> describe t \<noteq> [] \<and> length (describe t) \<le> 50"
proof -
  define x where "x = (let text = py_strip t;
          preview = py_replace (py_replace (take 100 text) [newline] '' '') [CHR 0x0D] '' '';
          preview = sub_speaker_labels preview;
          words = find_words preview;
          meaningful_words =
            map py_lower (filter (\<lambda>word. py_lower word \<notin> set common_words) words)
      in (if meaningful_words \<noteq> [] then py_join ''_'' (take 4 meaningful_words)
             else py_join ''_'' (map py_lower (filter py_isalpha (take 3 (py_split text))))))"
  define d where "d = collapse_separators (remove_unsafe x)"
  define e where "e = (if 50 < length d then take 50 d else d)"
  have desc: "describe t = (if e = [] then ''transcript'' else e)"
    by (simp add: describe_def Let_def e_def d_def x_def)
  have "is_word c" if "c \<in> set d" for c
  proof -
    from that have "c = CHR ''_'' \<or> (c \<in> set (remove_unsafe x) \<and> \<not> is_separator c)"
      unfolding d_def by (rule set_collapse_separators)
    then show ?thesis
      by (auto simp: is_word_underscore remove_unsafe_def is_separator_def)
  qed
  moreover have "set e \<subseteq> set d"
    by (auto simp: e_def dest: in_set_takeD)
  ultimately have we: "list_all is_word e"
    by (auto simp: list_all_iff)
  have le: "length e \<le> 50"
    by (simp add: e_def)
  have lit: "list_all is_word ''transcript''"
    by (simp add: is_word_def is_alpha_def)
  show ?thesis
    unfolding desc using we le lit by simp
qed

lemma describe_no_letters:
  assumes "\<forall>c\<in>set t. \<not> is_alpha c"
  shows "describe t = ''transcript''"
proof -
  define body where "body = py_strip t"
  define preview where
    "preview = sub_speaker_labels
       (py_replace (py_replace (take 100 body) [newline] '' '') [CHR 0x0D] '' '')"
  have tt: "set body \<subseteq> set t"
    unfolding body_def by (rule set_py_strip)
  have "set preview \<subseteq> set (take 100 body) \<union> {CHR '' ''}"
    unfolding preview_def
    using set_sub_speaker_labels
      set_py_replace [of "py_replace (take 100 body) [newline] '' ''" "[CHR 0x0D]" "'' ''"]
      set_py_replace [of "take 100 body" "[newline]" "'' ''"]
    by fastforce
  then have pv: "set preview \<subseteq> set t \<union> {CHR '' ''}"
    using tt set_take_subset [of 100 body] by blast
  have na: "\<not> is_alpha c" if "c \<in> set preview" for c
    using that pv assms space_not_alpha by auto
  have "find_words preview = []"
  proof (rule ccontr)
    assume "find_words preview \<noteq> []"
    then obtain w where w: "w \<in> set (find_words preview)"
      by (cases "find_words preview") auto
    then have "w \<in> set (split_where (\<lambda>c. \<not> is_word c) preview)"
      and "3 \<le> length w" and al: "list_all is_ascii_letter w"
      by (simp_all add: find_words_def)
    then have "set w \<subseteq> set preview" and "w \<noteq> []"
      using split_where_pieces by fastforce+
    then obtain c where "c \<in> set w" "c \<in> set preview"
      by (cases w) auto
    with al na show False
      by (auto simp: list_all_iff dest: ascii_letter_alpha)
  qed
  then have fw: "find_words (sub_speaker_labels
       (py_replace (py_replace (take 100 (py_strip t)) [newline] '' '') [CHR 0x0D] '' '')) = []"
    by (simp add: preview_def body_def)
  have "filter py_isalpha (take 3 (py_split body)) = []"
  proof (rule ccontr)
    assume "filter py_isalpha (take 3 (py_split body)) \<noteq> []"
    then obtain w where "w \<in> set (take 3 (py_split body))" and ia: "py_isalpha w"
      by (auto simp: filter_empty_conv)
    then have "w \<in> set (split_where is_space body)"
      by (auto simp: py_split_def dest: in_set_takeD)
    then have "set w \<subseteq> set body"
      using split_where_pieces by fastforce
    moreover from ia obtain c where "c \<in> set w" "is_alpha c"
      by (cases w) (auto simp: py_isalpha_def)
    ultimately show False using tt assms by blast
  qed
  then have fb: "filter py_isalpha (take 3 (py_split (py_strip t))) = []"
    by (simp add: body_def)
  show ?thesis
    by (simp add: describe_def Let_def fw fb remove_unsafe_def)
qed

lemma length_zero_pad: "length (zero_pad k n) = k"
  by (simp add: zero_pad_def)

lemma zero_pad_decimal: "list_all is_decimal (zero_pad k n)"
proof -
  have "is_decimal (digit_char (m mod 10))" for m
  proof -
    have "m mod 10 < 10" by simp
    then have "(48 + m mod 10) mod 256 = 48 + m mod 10"
      by simp
    then show ?thesis
      by (simp add: is_decimal_def digit_char_def)
  qed
  then show ?thesis
    by (simp add: zero_pad_def list_all_iff)
qed

lemma strftime_compact_shape:
  "length (strftime_compact now) = 15 \<and>
   list_all is_decimal (take 8 (strftime_compact now)) \<and>
   strftime_compact now ! 8 = CHR ''_'' \<and>
   list_all is_decimal (drop 9 (strftime_compact now))"
proof -
  define a where "a = zero_pad 4 (year now) @ zero_pad 2 (month now) @ zero_pad 2 (day now)"
  define b where "b = zero_pad 2 (hour now) @ zero_pad 2 (minute now) @ zero_pad 2 (second now)"
  have la: "length a = 8" and lb: "length b = 6"
    by (simp_all add: a_def b_def length_zero_pad)
  have da: "list_all is_decimal a" and db: "list_all is_decimal b"
    by (simp_all add: a_def b_def zero_pad_decimal)
  have s: "strftime_compact now = a @ CHR ''_'' # b"
    by (simp add: strftime_compact_def a_def b_def)
  show ?thesis
    unfolding s using la lb da db by (simp add: nth_append)
qed

section \<open>Stems\<close>

lemma path_name_component:
  assumes d: "d = [] \<or> last d = CHR ''/''" and c: "nm \<noteq> []" "nm \<noteq> ''.''"
    and free: "CHR ''/'' \<notin> set nm"
  shows "path_name (d @ nm) = nm"
proof -
  let ?P = "\<lambda>c. c = CHR ''/''"
  let ?f = "\<lambda>x. x \<noteq> [] \<and> x \<noteq> ''.''"
  have one: "split_where ?P nm = [nm]"
    using free by (intro split_where_free) auto
  have "\<exists>xs. split_where ?P (d @ nm) = xs @ [nm]"
  proof (cases "d = []")
    case True
    with one show ?thesis by simp
  next
    case False
    with d obtain u where "d = u @ [CHR ''/'']"
      by (metis append_butlast_last_id)
    then have "split_where ?P (d @ nm) = split_where ?P u @ split_where ?P nm"
      using split_where_append [of ?P "CHR ''/''" u nm] by simp
    with one show ?thesis by simp
  qed
  then obtain xs where "split_where ?P (d @ nm) = xs @ [nm]" ..
  then have "filter ?f (py_split_on (CHR ''/'') (d @ nm)) = filter ?f xs @ [nm]"
    using c by (simp add: py_split_on_def)
  moreover have "(case ys @ [nm] of [] \<Rightarrow> [] | x # xs \<Rightarrow> last (x # xs)) = nm" for ys
    by (cases ys) simp_all
  ultimately show ?thesis
    by (simp add: path_name_def)
qed

lemma rfind_dot_last:
  assumes "CHR ''.'' \<notin> set ext"
  shows "rfind_dot (s @ CHR ''.'' # ext) = Some (length s)"
proof -
  have "takeWhile (\<lambda>c. c \<noteq> CHR ''.'') (rev ext @ CHR ''.'' # rev s) = rev ext"
    using assms by (subst takeWhile_append2) auto
  then show ?thesis
    by (simp add: rfind_dot_def)
qed

lemma path_stem_of_file:
  assumes "d = [] \<or> last d = CHR ''/''" and "s \<noteq> []" and "CHR ''/'' \<notin> set s"
    and "ext \<noteq> []" and "CHR ''.'' \<notin> set ext" and "CHR ''/'' \<notin> set ext"
  shows "path_stem (d @ s @ ''.'' @ ext) = s"
proof -
  define nm where "nm = s @ CHR ''.'' # ext"
  have "nm \<noteq> ''.''"
    using assms(2) by (cases s) (auto simp: nm_def)
  then have "path_name (d @ nm) = nm"
    using assms by (intro path_name_component) (auto simp: nm_def)
  moreover have "rfind_dot nm = Some (length s)"
    unfolding nm_def by (rule rfind_dot_last [OF assms(5)])
  moreover have "0 < length s" "length s + 1 < length nm" "take (length s) nm = s"
    using assms(2,4) by (simp_all add: nm_def)
  ultimately have "path_stem (d @ nm) = s"
    by (simp add: path_stem_def)
  then show ?thesis
    by (simp add: nm_def)
qed

lemma path_name_no_separator: "CHR ''/'' \<notin> set (path_name p)"
proof (cases "filter (\<lambda>x. x \<noteq> [] \<and> x \<noteq> ''.'') (py_split_on (CHR ''/'') p)")
  case Nil
  then show ?thesis by (simp add: path_name_def)
next
  case (Cons x xs)
  then have "path_name p = last (x # xs)"
    by (simp add: path_name_def)
  moreover have "last (x # xs) \<in> set (filter (\<lambda>x. x \<noteq> [] \<and> x \<noteq> ''.'')
      (py_split_on (CHR ''/'') p))"
    unfolding Cons by (rule last_in_set) simp
  then have "last (x # xs) \<in> set (split_where (\<lambda>c. c = CHR ''/'') p)"
    by (simp add: py_split_on_def)
  ultimately show ?thesis
    using split_where_pieces by fastforce
qed

lemma path_stem_no_separator: "CHR ''/'' \<notin> set (path_stem p)"
  using path_name_no_separator [of p]
  by (auto simp: path_stem_def Let_def split: option.splits dest: in_set_takeD)

lemma decimal_is_word: "is_decimal c \<Longrightarrow> is_word c"
  by (simp add: is_word_def Let_def)

lemma stamp_safe: "list_all filesystem_safe (strftime_compact now)"
proof -
  have "list_all filesystem_safe (zero_pad k n)" for k n
    using zero_pad_decimal [of k n]
    by (auto simp: list_all_iff filesystem_safe_def dest: decimal_is_word)
  then show ?thesis
    by (simp add: strftime_compact_def filesystem_safe_def is_word_underscore)
qed

lemma digit_char_values:
  "map digit_char [0, 1, 2, 3, 4, 5, 6, 7, 8, 9] = ''0123456789''"
  by code_simp

lemma sample_stamp: "strftime_compact sample_now = ''20250309_140507''"
  using digit_char_values
  by (simp add: strftime_compact_def zero_pad_def sample_now_def upt_rec [of _ "numeral _"]
      upt_rec [of _ "Suc _"])

lemma describe_empty: "describe [] = ''transcript''"
  by code_simp

section \<open>The file name\<close>

text \<open>
  C1, as amended. For every transcript and every original path the file name is
  \<open>description_stem_YYYYMMDD_HHMMSS.md\<close>: it is not empty and ends in \<open>.md\<close>; the
  description is not empty, has at most 50 characters, all of them word characters, and is
  \<open>transcript\<close> when the transcript has no letter; the time stamp has 15 characters, eight
  digits, an underscore and six digits. The stem of the original path is taken as it is
  (it has no \<open>/\<close>): the name has \<open>20\<close> characters more than the description and the stem
  together, and it is made of word characters, dots and hyphens whenever the stem is.
\<close>

theorem filename_shape:
  "generate_descriptive_filename t p now =
     describe t @ ''_'' @ path_stem p @ ''_'' @ strftime_compact now @ ''.md'' \<and>
   generate_descriptive_filename t p now \<noteq> [] \<and>
   suffix ''.md'' (generate_descriptive_filename t p now) \<and>
   describe t \<noteq> [] \<and> length (describe t) \<le> 50 \<and> list_all is_word (describe t) \<and>
   (list_all (\<lambda>c. \<not> is_alpha c) t \<longrightarrow> describe t = ''transcript'') \<and>
   length (strftime_compact now) = 15 \<and>
   list_all is_decimal (take 8 (strftime_compact now)) \<and>
   strftime_compact now ! 8 = CHR ''_'' \<and>
   list_all is_decimal (drop 9 (strftime_compact now)) \<and>
   CHR ''/'' \<notin> set (path_stem p) \<and>
   length (generate_descriptive_filename t p now) =
     length (describe t) + length (path_stem p) + 20 \<and>
   (list_all filesystem_safe (path_stem p) \<longrightarrow>
      list_all filesystem_safe (generate_descriptive_filename t p now))"
proof -
  note d = describe_word_chars [of t] and s = strftime_compact_shape [of now]
  have f: "generate_descriptive_filename t p now =
     describe t @ ''_'' @ path_stem p @ ''_'' @ strftime_compact now @ ''.md''"
    by (simp add: generate_descriptive_filename_def)
  have ne: "generate_descriptive_filename t p now \<noteq> []"
    unfolding f using d by simp
  have sfx: "suffix ''.md'' (generate_descriptive_filename t p now)"
    unfolding f by (metis append_assoc suffixI)
  have len: "length (generate_descriptive_filename t p now) =
     length (describe t) + length (path_stem p) + 20"
    unfolding f using s by simp
  have fb: "list_all (\<lambda>c. \<not> is_alpha c) t \<longrightarrow> describe t = ''transcript''"
    using describe_no_letters [of t] by (simp add: list_all_iff)
  have "list_all filesystem_safe (describe t)"
    using d by (auto simp: list_all_iff filesystem_safe_def)
  moreover have "list_all filesystem_safe ''_''" "list_all filesystem_safe ''.md''"
    by (simp_all add: filesystem_safe_def is_word_def is_alpha_def)
  ultimately have safe: "list_all filesystem_safe (path_stem p) \<longrightarrow>
      list_all filesystem_safe (generate_descriptive_filename t p now)"
    unfolding f using stamp_safe [of now] by (simp only: list_all_append) blast
  from f ne sfx d fb s path_stem_no_separator [of p] len safe
  show ?thesis by blast
qed

theorem filename_shape_witness:
  "list_all (\<lambda>c. \<not> is_alpha c) ''...!!!'' \<and>
   list_all filesystem_safe (path_stem ''talks/My_Talk.mp3'') \<and>
   describe ''...!!!'' = ''transcript'' \<and>
   list_all filesystem_safe
     (generate_descriptive_filename ''...!!!'' ''talks/My_Talk.mp3'' sample_now) \<and>
   length (generate_descriptive_filename ''...!!!'' ''talks/My_Talk.mp3'' sample_now) =
     length (describe ''...!!!'') + length (path_stem ''talks/My_Talk.mp3'') + 20 \<and>
   suffix ''.md'' (generate_descriptive_filename ''...!!!'' ''talks/My_Talk.mp3'' sample_now)"
proof -
  have a: "list_all (\<lambda>c. \<not> is_alpha c) ''...!!!''"
    by (simp add: is_alpha_def)
  have b: "list_all filesystem_safe (path_stem ''talks/My_Talk.mp3'')"
    by code_simp
  from filename_shape [of "''...!!!''" "''talks/My_Talk.mp3''" sample_now] a b
  show ?thesis by blast
qed

theorem filename_safe_counterexample:
  "generate_descriptive_filename [] ''rec/a*b?.mp3'' sample_now =
     ''transcript_a*b?_20250309_140507.md'' \<and>
   \<not> filesystem_safe (CHR ''*'') \<and> \<not> filesystem_safe (CHR ''?'') \<and>
   length (generate_descriptive_filename [] (replicate 245 (CHR ''a'') @ ''.'' @ ''mp3'')
     sample_now) = 275"
proof -
  have "path_stem ''rec/a*b?.mp3'' = ''a*b?''"
    by code_simp
  then have a: "generate_descriptive_filename [] ''rec/a*b?.mp3'' sample_now =
     ''transcript_a*b?_20250309_140507.md''"
    by (simp add: generate_descriptive_filename_def describe_empty sample_stamp)
  have b: "\<not> filesystem_safe (CHR ''*'')" "\<not> filesystem_safe (CHR ''?'')"
    by (simp_all add: filesystem_safe_def is_word_def is_alpha_def is_decimal_def)
  have c: "length (generate_descriptive_filename [] (replicate n (CHR ''a'') @ ''.'' @ ''mp3'')
      sample_now) = n + 30" if "0 < n" for n
  proof -
    have "path_stem ([] @ replicate n (CHR ''a'') @ ''.'' @ ''mp3'') = replicate n (CHR ''a'')"
      using that by (intro path_stem_of_file) auto
    then show ?thesis
      by (simp add: generate_descriptive_filename_def describe_empty sample_stamp)
  qed
  have "(0::nat) < 245" by simp
  from c [OF this] have "length (generate_descriptive_filename []
      (replicate 245 (CHR ''a'') @ ''.'' @ ''mp3'') sample_now) = 275"
    by (simp only: numeral_plus_numeral semiring_norm)
  with a b show ?thesis by blast
qed

text \<open>
  C10. The stem of the original path stands in the file name as it is. For a path that
  ends in a file name \<open>s.ext\<close> (\<open>s\<close> not empty and without \<open>/\<close>, whatever its other
  characters; \<open>ext\<close> not empty and without dot or \<open>/\<close>) the stem is \<open>s\<close>, and the file name is
  the description, \<open>s\<close> and the time stamp joined by underscores, with \<open>.md\<close> at the end.
\<close>

theorem stem_embedded_verbatim:
  "sublist (path_stem p) (generate_descriptive_filename t p now) \<and>
   ((d = [] \<or> last d = CHR ''/'') \<and> s \<noteq> [] \<and> CHR ''/'' \<notin> set s \<and>
    ext \<noteq> [] \<and> CHR ''.'' \<notin> set ext \<and> CHR ''/'' \<notin> set ext \<longrightarrow>
      path_stem (d @ s @ ''.'' @ ext) = s \<and>
      generate_descriptive_filename t (d @ s @ ''.'' @ ext) now =
        describe t @ ''_'' @ s @ ''_'' @ strftime_compact now @ ''.md'')"
proof -
  have "sublist (path_stem p) (generate_descriptive_filename t p now)"
    unfolding generate_descriptive_filename_def
    by (metis append_assoc sublist_appendI)
  moreover have "path_stem (d @ s @ ''.'' @ ext) = s"
    if "(d = [] \<or> last d = CHR ''/'') \<and> s \<noteq> [] \<and> CHR ''/'' \<notin> set s \<and>
        ext \<noteq> [] \<and> CHR ''.'' \<notin> set ext \<and> CHR ''/'' \<notin> set ext"
    using that path_stem_of_file by blast
  ultimately show ?thesis
    by (simp add: generate_descriptive_filename_def)
qed

theorem stem_embedded_verbatim_witness:
  "last ''rec/'' = CHR ''/'' \<and> ''my talk (v2)!'' \<noteq> [] \<and> CHR ''/'' \<notin> set ''my talk (v2)!'' \<and>
   ''mp3'' \<noteq> [] \<and> CHR ''.'' \<notin> set ''mp3'' \<and> CHR ''/'' \<notin> set ''mp3'' \<and>
   path_stem (''rec/'' @ ''my talk (v2)!'' @ ''.'' @ ''mp3'') = ''my talk (v2)!'' \<and>
   generate_descriptive_filename ''Hello world'' (''rec/'' @ ''my talk (v2)!'' @ ''.'' @ ''mp3'')
       sample_now =
     describe ''Hello world'' @ ''_'' @ ''my talk (v2)!'' @ ''_'' @
     strftime_compact sample_now @ ''.md'' \<and>
   sublist (path_stem (''rec/'' @ ''my talk (v2)!'' @ ''.'' @ ''mp3''))
     (generate_descriptive_filename ''Hello world''
        (''rec/'' @ ''my talk (v2)!'' @ ''.'' @ ''mp3'') sample_now)"
proof -
  have a: "last ''rec/'' = CHR ''/''" "''my talk (v2)!'' \<noteq> []"
    "CHR ''/'' \<notin> set ''my talk (v2)!''" "''mp3'' \<noteq> []" "CHR ''.'' \<notin> set ''mp3''"
    "CHR ''/'' \<notin> set ''mp3''"
    by simp_all
  from stem_embedded_verbatim
      [of "''rec/'' @ ''my talk (v2)!'' @ ''.'' @ ''mp3''" "''Hello world''" sample_now
        "''rec/''" "''my talk (v2)!''" "''mp3''"] a
  show ?thesis by blast
qed

end
